theory Spec2Isabelle
  imports Main "HOL-Library.AList" "HOL-Library.Sublist"
begin

section \<open>Strings\<close>

text \<open>
  JavaScript strings are sequences of code units; the operations used by the runtime
  (\<^verbatim>\<open>startsWith\<close>, \<^verbatim>\<open>endsWith\<close>, \<^verbatim>\<open>slice\<close>, \<^verbatim>\<open>split\<close> on a single space, matching of
  ASCII digits and letters) work unit by unit, so a string is modelled as a \<^typ>\<open>string\<close>.
\<close>

definition startsWith :: "string \<Rightarrow> string \<Rightarrow> bool" where
  "startsWith s p = (take (length p) s = p)"

definition endsWith :: "string \<Rightarrow> string \<Rightarrow> bool" where
  "endsWith s p = (length p \<le> length s \<and> drop (length s - length p) s = p)"

text \<open>\<^verbatim>\<open>s.slice(0, -k)\<close>: everything but the last \<open>k\<close> units, empty when \<open>s\<close> is shorter.\<close>

definition sliceEnd :: "string \<Rightarrow> nat \<Rightarrow> string" where
  "sliceEnd s k = take (length s - k) s"

text \<open>\<^verbatim>\<open>s.split(" ")\<close>: the pieces between single spaces; \<^verbatim>\<open>"".split(" ")\<close> is \<^verbatim>\<open>[""]\<close>.\<close>

fun split_space :: "string \<Rightarrow> string list" where
  "split_space [] = [[]]"
| "split_space (c # cs) =
     (if c = CHR '' '' then [] # split_space cs
      else (c # hd (split_space cs)) # tl (split_space cs))"

section \<open>Event matching (MotiaCore.eventMatchesPattern)\<close>

text \<open>
  \<^verbatim>\<open>
  eventMatchesPattern(eventType, pattern) {
    if (pattern === "*") return true;
    if (pattern === eventType) return true;
    if (pattern.endsWith(".*")) {
      const prefix = pattern.slice(0, -2);
      return eventType.startsWith(prefix);
    }
    return false;
  }
  \<close>
\<close>

definition eventMatchesPattern :: "string \<Rightarrow> string \<Rightarrow> bool" where
  "eventMatchesPattern eventType pattern =
     (if pattern = ''*'' then True
      else if pattern = eventType then True
      else if endsWith pattern ''.*'' then
        (let prefix = sliceEnd pattern 2 in startsWith eventType prefix)
      else False)"

text \<open>
  The matching rule as the specification words it: equality, the literal \<open>*\<close>, or a
  pattern \<open>prefix.*\<close> against a type that begins with \<open>prefix.\<close>, the dot included.
\<close>

definition spec_match :: "string \<Rightarrow> string \<Rightarrow> bool" where
  "spec_match eventType pattern =
     (pattern = eventType \<or> pattern = ''*'' \<or>
      (endsWith pattern ''.*'' \<and> startsWith eventType (sliceEnd pattern 1)))"

section \<open>Events, options and the in-memory message bus\<close>

record 'd event =
  etype :: string
  edata :: 'd

text \<open>
  The options object handed to \<^verbatim>\<open>emit\<close>/\<^verbatim>\<open>publish\<close>; \<^verbatim>\<open>traceId\<close> is \<^verbatim>\<open>undefined\<close>
  (\<open>None\<close>) when the caller supplies none.
\<close>

record options =
  traceId :: "string option"
  metadata :: "(string \<times> string) list"

datatype error = Error string

text \<open>
  How the promise returned by an asynchronous call ends: it resolves, it rejects with an
  error, or it never settles.
\<close>

datatype settle = Resolved | Rejected error | Pending

text \<open>
  One call of a component's handler entry point, \<^verbatim>\<open>component(a, (e) => this.emit(e, opts), c)\<close>:
  the component's id, the first argument, the options \<open>opts\<close> that the emit closure
  captured (they determine the closure), and the third argument.
\<close>

record 'd handler_call =
  callee :: string
  arg_input :: 'd
  arg_emit_opts :: options
  arg_third :: string

text \<open>
  A component is given by how its handler behaves on its three arguments. What the handler
  does inside (further emits included) is its own affair; the core sees only how the
  returned promise ends.
\<close>

type_synonym 'd component = "'d \<Rightarrow> options \<Rightarrow> string \<Rightarrow> settle"

text \<open>
  A bus subscriber is an async function of the event and the options. Running it yields
  the handler calls it made and the way its promise ended. An async function never throws
  synchronously: an exception inside it rejects its promise.
\<close>

type_synonym 'd subscriber = "'d event \<Rightarrow> options \<Rightarrow> 'd handler_call list \<times> settle"

text \<open>
  The subscriber that \<^verbatim>\<open>MotiaCore.initialize\<close> registers for a component and one of its
  patterns:
  \<^verbatim>\<open>
  this.messageBus.subscribe(async (event, opts) => {
    if (this.eventMatchesPattern(event.type, eventPattern)) {
      await component(event.data, (e) => this.emit(e, opts), event.type);
    }
  });
  \<close>
\<close>

definition coreSubscriber :: "string \<Rightarrow> 'd component \<Rightarrow> string \<Rightarrow> 'd subscriber" where
  "coreSubscriber cid component eventPattern event opts =
     (if eventMatchesPattern (etype event) eventPattern then
        ([\<lparr>callee = cid, arg_input = edata event, arg_emit_opts = opts,
           arg_third = etype event\<rparr>],
         component (edata event) opts (etype event))
      else ([], Resolved))"

text \<open>
  \<^verbatim>\<open>this.components.forEach((component, id) => { ... for (const eventPattern of
  module.subscribe) this.messageBus.subscribe(...) })\<close>: one subscriber per component and
  pattern, in registration order. A registered component is its id, its handler and the
  patterns its module subscribes to.
\<close>

definition subscribeAll :: "(string \<times> 'd component \<times> string list) list \<Rightarrow> 'd subscriber list" where
  "subscribeAll components =
     concat (map (\<lambda>(cid, component, patterns). map (coreSubscriber cid component) patterns)
                 components)"

text \<open>\<^verbatim>\<open>promise.catch((error) => { console.error(...) })\<close>: a rejection becomes a resolution.\<close>

fun catch_log :: "settle \<Rightarrow> settle" where
  "catch_log (Rejected e) = Resolved"
| "catch_log s = s"

text \<open>
  \<^verbatim>\<open>Promise.all\<close>: rejects when a member rejects, stays pending while a member is pending,
  and resolves when all have resolved.
\<close>

definition promise_all :: "settle list \<Rightarrow> settle" where
  "promise_all ps =
     (case filter (\<lambda>p. case p of Rejected _ \<Rightarrow> True | _ \<Rightarrow> False) ps of
        r # _ \<Rightarrow> r
      | [] \<Rightarrow> if Pending \<in> set ps then Pending else Resolved)"

text \<open>
  \<^verbatim>\<open>
  async publish(event, options) {
    await Promise.all(
      this.subscribers.map((subscriber) =>
        subscriber(event, options).catch((error) => {
          console.error("Error in subscriber:", error);
        })));
  }
  \<close>
  The run of a publish: the handler calls made, the errors written to the console, and
  how the promise of \<^verbatim>\<open>publish\<close> ends.
\<close>

record 'd publish_run =
  calls :: "'d handler_call list"
  console_errors :: "error list"
  outcome :: settle

definition publish :: "'d subscriber list \<Rightarrow> 'd event \<Rightarrow> options \<Rightarrow> 'd publish_run" where
  "publish subscribers event opts =
     (let runs = map (\<lambda>subscriber. subscriber event opts) subscribers in
      \<lparr>calls = concat (map fst runs),
       console_errors = concat (map (\<lambda>r. case snd r of Rejected e \<Rightarrow> [e] | _ \<Rightarrow> []) runs),
       outcome = promise_all (map (\<lambda>r. catch_log (snd r)) runs)\<rparr>)"

text \<open>
  The handler call recorded when the event is delivered to the component \<open>cid\<close>; a name for
  the record that \<open>coreSubscriber\<close> builds.
\<close>

definition delivery :: "string \<Rightarrow> 'd event \<Rightarrow> options \<Rightarrow> 'd handler_call" where
  "delivery cid event opts =
     \<lparr>callee = cid, arg_input = edata event, arg_emit_opts = opts, arg_third = etype event\<rparr>"

section \<open>The HTTP trigger (MotiaServer)\<close>

text \<open>
  An awaited call that yields a value: it returns one, throws (or rejects with) an error,
  or never settles.
\<close>

datatype 'a awaited = Returns 'a | Throws error | Hangs

fun message :: "error \<Rightarrow> string" where
  "message (Error m) = m"

text \<open>
  The part of the express request the server reads. Header names are lower-cased by the
  HTTP layer; \<^verbatim>\<open>req.headers["x-trace-id"]\<close> is a lookup, \<^verbatim>\<open>undefined\<close> when absent.
\<close>

record request =
  req_path :: string
  req_method :: string
  req_headers :: "(string \<times> string) list"

text \<open>
  A traffic configuration; \<open>http_method\<close> is its field \<^verbatim>\<open>method\<close>. A field that is
  missing (\<^verbatim>\<open>undefined\<close>) is \<open>None\<close>. The authorization check and the transform are
  awaited.
\<close>

record 'd traffic_config =
  path :: "string option"
  http_method :: "string option"
  authorize :: "(request \<Rightarrow> settle) option"
  transform :: "(request \<Rightarrow> 'd event awaited) option"

text \<open>
  \<^verbatim>\<open>this.traffic\<close> is a \<^verbatim>\<open>Map\<close> from path to configuration: an association list with
  distinct keys, where \<^verbatim>\<open>set\<close> replaces the value of a key that is present and appends a
  new key otherwise (\<^const>\<open>AList.update\<close>), and \<^verbatim>\<open>get\<close> is \<^const>\<open>map_of\<close>.
\<close>

type_synonym 'd traffic = "(string \<times> 'd traffic_config) list"

text \<open>
  \<^verbatim>\<open>
  registerTraffic(config) {
    if (!config.path || !config.method || !config.transform) {
      throw new Error("Invalid traffic configuration");
    }
    const path = config.path.startsWith("/") ? config.path : `/${config.path}`;
    this.traffic.set(path, config);
  }
  \<close>
  A string is falsy when it is missing or empty.
\<close>

definition route_key :: "string \<Rightarrow> string" where
  "route_key p = (if startsWith p ''/'' then p else ''/'' @ p)"

definition registerTraffic :: "'d traffic_config \<Rightarrow> 'd traffic \<Rightarrow> error + 'd traffic" where
  "registerTraffic config traffic =
     (case (path config, http_method config, transform config) of
        (Some p, Some m, Some t) \<Rightarrow>
          if p = [] \<or> m = [] then Inl (Error ''Invalid traffic configuration'')
          else Inr (AList.update (route_key p) config traffic)
      | _ \<Rightarrow> Inl (Error ''Invalid traffic configuration''))"

text \<open>
  \<^verbatim>\<open>for (const config of trafficConfigs) { this.registerTraffic(config); }\<close> in
  \<^verbatim>\<open>initialize\<close>: the first throw ends the loop.
\<close>

fun registerAll :: "'d traffic_config list \<Rightarrow> 'd traffic \<Rightarrow> error + 'd traffic" where
  "registerAll [] traffic = Inr traffic"
| "registerAll (config # configs) traffic =
     (case registerTraffic config traffic of
        Inl e \<Rightarrow> Inl e
      | Inr traffic' \<Rightarrow> registerAll configs traffic')"

text \<open>The JSON bodies the server writes.\<close>

datatype body = ErrorBody string | SuccessBody string

text \<open>
  What a request does to the world: the responses it attempts to write
  (\<^verbatim>\<open>res.status(c).json(b)\<close>, in order), the calls of \<^verbatim>\<open>core.emit\<close> with their arguments,
  and how often the authorization check and the transform were called.
\<close>

record 'd world =
  responses :: "(nat \<times> body) list"
  emitted :: "('d event \<times> options) list"
  authorize_calls :: nat
  transform_calls :: nat

definition fresh :: "'d world" where
  "fresh = \<lparr>responses = [], emitted = [], authorize_calls = 0, transform_calls = 0\<rparr>"

text \<open>
  What the server calls into: \<^verbatim>\<open>this.core.emit\<close> (the core handed to \<^verbatim>\<open>initialize\<close>,
  whose message bus may be a custom one) and the writing of a response, which throws an
  error or does not.
\<close>

record 'd env =
  core_emit :: "'d event \<Rightarrow> options \<Rightarrow> settle"
  res_json :: "nat \<Rightarrow> body \<Rightarrow> error option"

definition respond :: "'d env \<Rightarrow> nat \<Rightarrow> body \<Rightarrow> 'd world \<Rightarrow> settle \<times> 'd world" where
  "respond env status b w =
     (case res_json env status b of None \<Rightarrow> Resolved | Some e \<Rightarrow> Rejected e,
      w\<lparr>responses := responses w @ [(status, b)]\<rparr>)"

text \<open>
  The options of the emit:
  \<^verbatim>\<open>{ traceId: req.headers["x-trace-id"],
     metadata: { source: "http", path: req.path, method: req.method } }\<close>
\<close>

definition emit_options :: "request \<Rightarrow> options" where
  "emit_options req =
     \<lparr>traceId = map_of (req_headers req) ''x-trace-id'',
      metadata = [(''source'', ''http''), (''path'', req_path req),
                  (''method'', req_method req)]\<rparr>"

text \<open>
  \<^verbatim>\<open>
  async handleRequest(req, res) {
    const traffic = this.traffic.get(req.path);
    if (!traffic) {
      res.status(404).json({ error: "Traffic not found" });
      return;
    }
    try {
      if (traffic.authorize) {
        try {
          await traffic.authorize(req);
        } catch (error) {
          res.status(401).json({ error: error.message });
          return;
        }
      }
      const event = await traffic.transform(req);
      await this.core.emit(event, { traceId: ..., metadata: ... });
      res.status(200).json({ success: true, eventType: event.type });
    } catch (error) {
      res.status(400).json({ error: error.message });
    }
  }
  \<close>
  The model follows the three nested parts. Inside the outer \<^verbatim>\<open>try\<close>, \<open>Rejected e\<close> is an
  exception on its way to the outer \<^verbatim>\<open>catch\<close>, \<open>Resolved\<close> is the end of the function (by
  \<^verbatim>\<open>return\<close> or by reaching the end), and \<open>Pending\<close> is an await that never comes back.
\<close>

definition transform_and_emit ::
  "'d env \<Rightarrow> 'd traffic_config \<Rightarrow> request \<Rightarrow> 'd world \<Rightarrow> settle \<times> 'd world" where
  "transform_and_emit env traffic req w =
     (case transform traffic of
        None \<Rightarrow> (Rejected (Error ''traffic.transform is not a function''), w)
      | Some tr \<Rightarrow>
          (let w1 = w\<lparr>transform_calls := Suc (transform_calls w)\<rparr> in
           case tr req of
             Hangs \<Rightarrow> (Pending, w1)
           | Throws e \<Rightarrow> (Rejected e, w1)
           | Returns event \<Rightarrow>
               (let w2 = w1\<lparr>emitted := emitted w1 @ [(event, emit_options req)]\<rparr> in
                case core_emit env event (emit_options req) of
                  Pending \<Rightarrow> (Pending, w2)
                | Rejected e \<Rightarrow> (Rejected e, w2)
                | Resolved \<Rightarrow> respond env 200 (SuccessBody (etype event)) w2)))"

definition try_block ::
  "'d env \<Rightarrow> 'd traffic_config \<Rightarrow> request \<Rightarrow> 'd world \<Rightarrow> settle \<times> 'd world" where
  "try_block env traffic req w =
     (case authorize traffic of
        None \<Rightarrow> transform_and_emit env traffic req w
      | Some auth \<Rightarrow>
          (let w1 = w\<lparr>authorize_calls := Suc (authorize_calls w)\<rparr> in
           case auth req of
             Pending \<Rightarrow> (Pending, w1)
           | Rejected e \<Rightarrow> respond env 401 (ErrorBody (message e)) w1
           | Resolved \<Rightarrow> transform_and_emit env traffic req w1))"

definition handleRequest ::
  "'d env \<Rightarrow> 'd traffic \<Rightarrow> request \<Rightarrow> 'd world \<Rightarrow> settle \<times> 'd world" where
  "handleRequest env traffic req w =
     (case map_of traffic (req_path req) of
        None \<Rightarrow> respond env 404 (ErrorBody ''Traffic not found'') w
      | Some t \<Rightarrow>
          (case try_block env t req w of
             (Rejected e, w1) \<Rightarrow> respond env 400 (ErrorBody (message e)) w1
           | r \<Rightarrow> r))"

text \<open>
  The callback that \<^verbatim>\<open>initialize\<close> registers with express for every route:
  \<^verbatim>\<open>
  async (req, res) => {
    try { await this.handleRequest(req, res); }
    catch (error) { res.status(500).json({ error: error.message }); }
  }
  \<close>
\<close>

definition route_handler ::
  "'d env \<Rightarrow> 'd traffic \<Rightarrow> request \<Rightarrow> 'd world \<Rightarrow> settle \<times> 'd world" where
  "route_handler env traffic req w =
     (case handleRequest env traffic req w of
        (Rejected e, w1) \<Rightarrow> respond env 500 (ErrorBody (message e)) w1
      | r \<Rightarrow> r)"

section \<open>The API route handler of createServer (asyncHandler)\<close>

text \<open>
  \<^verbatim>\<open>
  const asyncHandler = (step: Step, flows: string[]) => {
    return async (req: Request, res: Response) => {
      const traceId = randomUUID()
      ...
      const request: ApiRequest = { body: req.body, headers: req.headers, ... }
      const emit = async ({ data, type }: EmitData) => {
        await eventManager.emit({ data, type, traceId, flows, logger }, step.filePath)
      }
      try {
        const result = await handler(request, { emit, state, logger, traceId })
        ... res.status(result.status); res.json(result.body)
      } catch (error) {
        res.status(500).json({ error: 'Internal server error' })
      }
    }
  }
  \<close>
  The value of \<^verbatim>\<open>randomUUID()\<close> for the request is a parameter. The logger, the state
  manager and the response headers play no part in what is emitted and are left out. A handler is given by the
  data it passes to \<^verbatim>\<open>emit\<close> and by its result, both of which may depend on the request
  and on the trace id in its context.
\<close>

record 'd api_request =
  ar_body :: 'd
  ar_headers :: "(string \<times> string) list"

record 'd emit_data =
  em_data :: 'd
  em_type :: string

record 'd managed_event =
  ev_data :: 'd
  ev_type :: string
  ev_traceId :: string
  ev_flows :: "string list"

record 'd api_result =
  res_status :: nat
  res_body :: 'd

datatype 'd api_body = HandlerBody 'd | InternalServerError

type_synonym 'd api_handler =
  "'d api_request \<Rightarrow> string \<Rightarrow> 'd emit_data list \<times> 'd api_result awaited"

definition asyncHandler ::
  "string \<Rightarrow> string list \<Rightarrow> string \<Rightarrow> 'd api_handler \<Rightarrow> 'd api_request
   \<Rightarrow> ('d managed_event \<times> string) list \<times> (nat \<times> 'd api_body) option" where
  "asyncHandler uuid flows filePath handler req =
     (let traceId = uuid;
          (emits, result) = handler req traceId
      in (map (\<lambda>e. (\<lparr>ev_data = em_data e, ev_type = em_type e, ev_traceId = traceId,
                       ev_flows = flows\<rparr>, filePath)) emits,
          case result of
            Returns r \<Rightarrow> Some (res_status r, HandlerBody (res_body r))
          | Throws e \<Rightarrow> Some (500, InternalServerError)
          | Hangs \<Rightarrow> None))"

section \<open>The scheduler (MotiaScheduler)\<close>

text \<open>
  \<^verbatim>\<open>
  parseSchedule(schedule) {
    const timeRegex = /^(\d+)(s|m|h|d)$/;
    const match = schedule.match(timeRegex);
    if (match) {
      const [, value, unit] = match;
      const num = parseInt(value, 10);
      switch (unit) {
        case "s": return num * 1000;
        case "m": return num * 60 * 1000;
        case "h": return num * 60 * 60 * 1000;
        case "d": return num * 24 * 60 * 60 * 1000;
        default: return 0;
      }
    }
    if (schedule.split(" ").length === 5) {
      // TODO: cron parsing
      return 60 * 60 * 1000;
    }
    throw new Error(`Invalid schedule format: ${schedule}`);
  }
  \<close>
  The regular expression is run as written: the longest run of digits \<^verbatim>\<open>0\<close> to \<^verbatim>\<open>9\<close> from
  the start, which must not be empty, then one unit letter, then the end of the string. No
  unit letter is a digit, so giving digits back cannot produce another match. The numbers
  are JavaScript numbers; the model computes with natural numbers, which agree with them
  as long as the product stays below \<open>2\<^sup>5\<^sup>3\<close>.
\<close>

definition isDigit :: "char \<Rightarrow> bool" where
  "isDigit c = (c \<in> set ''0123456789'')"

definition digitValue :: "char \<Rightarrow> nat" where
  "digitValue c = of_char c - 48"

definition parseInt10 :: "string \<Rightarrow> nat" where
  "parseInt10 ds = foldl (\<lambda>n c. 10 * n + digitValue c) 0 ds"

definition timeRegex :: "string \<Rightarrow> (string \<times> char) option" where
  "timeRegex s =
     (let v = takeWhile isDigit s in
      case dropWhile isDigit s of
        [u] \<Rightarrow> if v \<noteq> [] \<and> u \<in> set ''smhd'' then Some (v, u) else None
      | _ \<Rightarrow> None)"

definition parseSchedule :: "string \<Rightarrow> error + nat" where
  "parseSchedule schedule =
     (case timeRegex schedule of
        Some (v, u) \<Rightarrow>
          (let num = parseInt10 v in
           if u = CHR ''s'' then Inr (num * 1000)
           else if u = CHR ''m'' then Inr (num * 60 * 1000)
           else if u = CHR ''h'' then Inr (num * 60 * 60 * 1000)
           else if u = CHR ''d'' then Inr (num * 24 * 60 * 60 * 1000)
           else Inr 0)
      | None \<Rightarrow>
          if length (split_space schedule) = 5 then Inr (60 * 60 * 1000)
          else Inl (Error (''Invalid schedule format: '' @ schedule)))"

text \<open>
  The two accepted forms as the specification words them: an integer followed by one of
  the units \<open>s\<close>, \<open>m\<close>, \<open>h\<close>, \<open>d\<close>; and a string of five space-separated tokens. A token
  is a maximal run of characters other than the space, so a token is never empty, and
  \<open>tokens_from cur s\<close> reads the tokens of \<open>s\<close> after the characters \<open>cur\<close> of the current
  token.
\<close>

definition duration_form :: "string \<Rightarrow> bool" where
  "duration_form s =
     (s \<noteq> [] \<and> butlast s \<noteq> [] \<and> list_all isDigit (butlast s) \<and> last s \<in> set ''smhd'')"

fun tokens_from :: "string \<Rightarrow> string \<Rightarrow> string list" where
  "tokens_from cur [] = (if cur = [] then [] else [cur])"
| "tokens_from cur (c # cs) =
     (if c = CHR '' '' then (if cur = [] then tokens_from [] cs else cur # tokens_from [] cs)
      else tokens_from (cur @ [c]) cs)"

definition tokens :: "string \<Rightarrow> string list" where
  "tokens s = tokens_from [] s"

definition five_token_form :: "string \<Rightarrow> bool" where
  "five_token_form s = (length (tokens s) = 5)"

text \<open>
  A loaded schedule, and the timer that \<^verbatim>\<open>start\<close> creates for it: its period in
  milliseconds and the type and schedule id of the event that each tick emits.
\<close>

record schedule =
  interval :: string
  eventType :: string

record job =
  period :: nat
  tick_type :: string
  tick_scheduleId :: string

text \<open>
  \<^verbatim>\<open>
  start() {
    this.schedules.forEach((schedule, id) => {
      const interval = this.parseSchedule(schedule.interval);
      const job = setInterval(() => { this.core.emit({ type: schedule.eventType,
        data: { scheduledAt: ..., scheduleId: id } }, ...); }, interval);
      this.activeJobs.set(id, job);
    });
  }
  \<close>
  \<^verbatim>\<open>this.schedules\<close> is a \<^verbatim>\<open>Map\<close>, visited in insertion order; an exception in the callback
  ends \<^verbatim>\<open>forEach\<close> and leaves \<^verbatim>\<open>start\<close>. The result is the error thrown, if any, and the
  active jobs.
\<close>

fun start :: "(string \<times> schedule) list \<Rightarrow> (string \<times> job) list
               \<Rightarrow> error option \<times> (string \<times> job) list" where
  "start [] activeJobs = (None, activeJobs)"
| "start ((sid, sched) # rest) activeJobs =
     (case parseSchedule (interval sched) of
        Inl e \<Rightarrow> (Some e, activeJobs)
      | Inr ms \<Rightarrow>
          start rest
            (AList.update sid
               \<lparr>period = ms, tick_type = eventType sched, tick_scheduleId = sid\<rparr>
               activeJobs))"

section \<open>Sample components, routes and schedules\<close>

definition always_resolves :: "nat component" where
  "always_resolves input emit_opts third = Resolved"

definition always_rejects :: "nat component" where
  "always_rejects input emit_opts third = Rejected (Error ''boom'')"

definition three_components :: "(string \<times> nat component \<times> string list) list" where
  "three_components =
     [(''audit'', always_resolves, [''*'']),
      (''billing'', always_rejects, [''order.*'']),
      (''mailer'', always_resolves, [''order.created'', ''user.created''])]"

definition orders_a :: "request \<Rightarrow> nat event awaited" where
  "orders_a req = Returns \<lparr>etype = ''order.created'', edata = 1\<rparr>"

definition orders_b :: "request \<Rightarrow> nat event awaited" where
  "orders_b req = Returns \<lparr>etype = ''order.received'', edata = 2\<rparr>"

definition broken_transform :: "request \<Rightarrow> nat event awaited" where
  "broken_transform req = Throws (Error ''bad payload'')"


definition config_a :: "nat traffic_config" where
  "config_a = \<lparr>path = Some ''/orders'', http_method = Some ''POST'', authorize = None,
               transform = Some orders_a\<rparr>"

definition config_b :: "nat traffic_config" where
  "config_b = \<lparr>path = Some ''/orders'', http_method = Some ''POST'', authorize = None,
               transform = Some orders_b\<rparr>"

definition bus_ok :: "nat event \<Rightarrow> options \<Rightarrow> settle" where
  "bus_ok event opts = Resolved"

definition bus_down :: "nat event \<Rightarrow> options \<Rightarrow> settle" where
  "bus_down event opts = Rejected (Error ''bus down'')"

definition json_ok :: "nat \<Rightarrow> body \<Rightarrow> error option" where
  "json_ok status b = None"

definition json_fails_200 :: "nat \<Rightarrow> body \<Rightarrow> error option" where
  "json_fails_200 status b = (if status = 200 then Some (Error ''write failed'') else None)"

definition post_orders :: request where
  "post_orders = \<lparr>req_path = ''/orders'', req_method = ''POST'', req_headers = []\<rparr>"

definition post_orders_traced :: request where
  "post_orders_traced =
     \<lparr>req_path = ''/orders'', req_method = ''POST'', req_headers = [(''x-trace-id'', ''abc'')]\<rparr>"

definition emitting_handler :: "nat api_handler" where
  "emitting_handler req tid =
     ([\<lparr>em_data = ar_body req, em_type = ''order.created''\<rparr>],
      Returns \<lparr>res_status = 200, res_body = 0\<rparr>)"

section \<open>Properties of event matching\<close>

lemma startsWith_iff: "startsWith s p \<longleftrightarrow> (\<exists>r. s = p @ r)"
  unfolding startsWith_def
  by (metis append_eq_conv_conj append_take_drop_id)

lemma endsWith_iff: "endsWith s p \<longleftrightarrow> (\<exists>r. s = r @ p)"
  unfolding endsWith_def
  by (metis append_eq_conv_conj append_take_drop_id diff_add_inverse2 le_add2 length_append
      length_drop)

lemma sliceEnd_append: "sliceEnd (r @ p) (length p) = r"
  by (simp add: sliceEnd_def)

text \<open>What the code computes: for a pattern \<open>pre.*\<close> the dot is not part of the comparison.\<close>

lemma eventMatchesPattern_char:
  "eventMatchesPattern t p \<longleftrightarrow>
     p = ''*'' \<or> p = t \<or> (\<exists>pre. p = pre @ ''.*'' \<and> startsWith t pre)"
proof (cases "endsWith p ''.*''")
  case True
  then obtain pre where p: "p = pre @ ''.*''"
    by (auto simp: endsWith_iff)
  have "sliceEnd p 2 = pre"
    by (simp add: p sliceEnd_def)
  then show ?thesis
    using True by (auto simp: eventMatchesPattern_def p)
next
  case False
  then show ?thesis
    by (auto simp: eventMatchesPattern_def endsWith_iff)
qed

lemma eventMatchesPattern_star: "eventMatchesPattern t ''*''"
  by (simp add: eventMatchesPattern_def)

lemma eventMatchesPattern_refl: "eventMatchesPattern t t"
  by (simp add: eventMatchesPattern_def)

lemma spec_match_imp_eventMatchesPattern:
  "spec_match t p \<Longrightarrow> eventMatchesPattern t p"
proof -
  assume m: "spec_match t p"
  show ?thesis
  proof (cases "p = t \<or> p = ''*''")
    case True
    then show ?thesis by (auto simp: eventMatchesPattern_def)
  next
    case False
    with m have e: "endsWith p ''.*''" and s: "startsWith t (sliceEnd p 1)"
      by (auto simp: spec_match_def)
    from e obtain pre where p: "p = pre @ ''.*''"
      by (auto simp: endsWith_iff)
    have "sliceEnd p 1 = pre @ ''.''"
      by (simp add: p sliceEnd_def)
    with s obtain r where "t = pre @ ''.'' @ r"
      by (auto simp: startsWith_iff)
    then have "startsWith t pre"
      by (auto simp: startsWith_iff)
    then show ?thesis
      using p by (auto simp: eventMatchesPattern_char)
  qed
qed

text \<open>
  C1. The claim: matching follows the reference definition, so that a pattern
  \<open>prefix.*\<close> matches exactly the types that begin with \<open>prefix.\<close>, the dot included, and
  \<open>order.*\<close> does not match \<open>orderline.created\<close>. The code drops two characters from the
  pattern, the dot with the star, and compares with \<open>order\<close> alone: on the type
  \<open>orderline.created\<close> and the pattern \<open>order.*\<close> it answers true where the reference
  definition answers false. The other examples of the claim hold on the code.
\<close>

theorem eventMatchesPattern_orderline:
  "eventMatchesPattern ''orderline.created'' ''order.*'' = True
   \<and> spec_match ''orderline.created'' ''order.*'' = False
   \<and> eventMatchesPattern ''order.created'' ''order.*'' = True"
  by (simp add: eventMatchesPattern_def spec_match_def endsWith_def sliceEnd_def startsWith_def)
section \<open>Properties of the message bus and of the core's subscribers\<close>

lemma catch_log_not_rejected: "catch_log s \<noteq> Rejected e"
  by (cases s) auto

lemma catch_log_Pending: "catch_log s = Pending \<longleftrightarrow> s = Pending"
  by (cases s) auto

lemma Pending_in_catch_log: "Pending \<in> set (map catch_log ss) \<longleftrightarrow> Pending \<in> set ss"
  by (induction ss) (auto simp: catch_log_Pending dest: sym)

lemma promise_all_catch_log:
  "promise_all (map catch_log ss) = (if Pending \<in> set ss then Pending else Resolved)"
proof -
  have "filter (\<lambda>p. case p of Rejected _ \<Rightarrow> True | _ \<Rightarrow> False) (map catch_log ss) = []"
    by (auto simp: filter_empty_conv catch_log_not_rejected split: settle.splits)
  then show ?thesis
    using Pending_in_catch_log [of ss] by (simp add: promise_all_def)
qed

lemma outcome_publish:
  "outcome (publish subs ev opts) =
     (if \<exists>s \<in> set subs. snd (s ev opts) = Pending then Pending else Resolved)"
proof -
  have "map (\<lambda>r. catch_log (snd r)) (map (\<lambda>s. s ev opts) subs)
        = map catch_log (map (\<lambda>s. snd (s ev opts)) subs)"
    by simp
  moreover have "Pending \<in> set (map (\<lambda>s. snd (s ev opts)) subs)
                 \<longleftrightarrow> (\<exists>s \<in> set subs. snd (s ev opts) = Pending)"
    by (force simp: image_iff)
  ultimately show ?thesis
    unfolding publish_def Let_def
    by (simp add: promise_all_catch_log del: map_map set_map)
qed

lemma calls_publish:
  "calls (publish subs ev opts) = concat (map (\<lambda>s. fst (s ev opts)) subs)"
  by (simp add: publish_def Let_def comp_def)

lemma console_errors_publish:
  "set (console_errors (publish subs ev opts)) = {e. \<exists>s \<in> set subs. snd (s ev opts) = Rejected e}"
  by (auto simp: publish_def Let_def split: settle.splits)

lemma fst_coreSubscriber:
  "fst (coreSubscriber cid c p ev opts) =
     (if eventMatchesPattern (etype ev) p then [delivery cid ev opts] else [])"
  by (simp add: coreSubscriber_def delivery_def)

lemma snd_coreSubscriber:
  "snd (coreSubscriber cid c p ev opts) =
     (if eventMatchesPattern (etype ev) p then c (edata ev) opts (etype ev) else Resolved)"
  by (simp add: coreSubscriber_def)

lemma calls_patterns:
  "concat (map (\<lambda>p. fst (coreSubscriber cid c p ev opts)) pats)
   = map (\<lambda>p. delivery cid ev opts) (filter (eventMatchesPattern (etype ev)) pats)"
  by (induction pats) (simp_all add: fst_coreSubscriber)

lemma calls_subscribeAll:
  "calls (publish (subscribeAll comps) ev opts) =
     concat (map (\<lambda>(cid, c, pats).
        map (\<lambda>p. delivery cid ev opts) (filter (eventMatchesPattern (etype ev)) pats)) comps)"
proof (induction comps)
  case Nil
  show ?case by (simp add: calls_publish subscribeAll_def)
next
  case (Cons a comps)
  obtain cid c pats where a: "a = (cid, c, pats)" by (cases a) auto 
  from Cons show ?case
    by (simp add: calls_publish subscribeAll_def a calls_patterns comp_def)
qed

lemma set_subscribeAll:
  "set (subscribeAll comps) = {coreSubscriber cid c p | cid c pats p. (cid, c, pats) \<in> set comps \<and> p \<in> set pats}"
  by (fastforce simp: subscribeAll_def)

text \<open>
  C4, as stated, fails: the third argument of the handler is the type of the event, not the
  trace id. An event of type \<open>order.created\<close> published with the trace id \<open>trace-1\<close> reaches
  the handler with \<open>order.created\<close> as its third argument.
\<close>

theorem handler_third_argument_counterexample:
  "map arg_third
     (calls (publish (subscribeAll [(''billing'', always_resolves, [''order.*''])])
               \<lparr>etype = ''order.created'', edata = 7\<rparr>
               \<lparr>traceId = Some ''trace-1'', metadata = []\<rparr>))
   = [''order.created'']
   \<and> traceId \<lparr>traceId = Some ''trace-1'', metadata = []\<rparr> \<noteq> Some ''order.created''"
  by (simp add: calls_subscribeAll delivery_def eventMatchesPattern_def endsWith_def
      sliceEnd_def startsWith_def)

text \<open>
  C4, amended. For every registered component and every event delivered to it (the type of
  the event matches one of the component's patterns), the core calls the handler with the
  three arguments (event data, emit function, event type), in that order: the emit function
  publishes with the options of the publish that delivered the event, and the third
  argument is the type of the event. Every handler call of a publish has this shape.
\<close>

theorem handler_called_with_event_type:
  assumes "(cid, c, pats) \<in> set comps" and "p \<in> set pats"
    and "eventMatchesPattern (etype ev) p"
  shows "\<lparr>callee = cid, arg_input = edata ev, arg_emit_opts = opts, arg_third = etype ev\<rparr>
           \<in> set (calls (publish (subscribeAll comps) ev opts))
         \<and> (\<forall>h \<in> set (calls (publish (subscribeAll comps) ev opts)).
              arg_input h = edata ev \<and> arg_emit_opts h = opts \<and> arg_third h = etype ev)"
proof
  have "delivery cid ev opts \<in> set (calls (publish (subscribeAll comps) ev opts))"
    unfolding calls_subscribeAll using assms by force
  then show "\<lparr>callee = cid, arg_input = edata ev, arg_emit_opts = opts, arg_third = etype ev\<rparr>
           \<in> set (calls (publish (subscribeAll comps) ev opts))"
    by (simp add: delivery_def)
  show "\<forall>h \<in> set (calls (publish (subscribeAll comps) ev opts)).
              arg_input h = edata ev \<and> arg_emit_opts h = opts \<and> arg_third h = etype ev"
    unfolding calls_subscribeAll by (auto simp: delivery_def)
qed

text \<open>The theorem of C4 at a component subscribed to \<open>order.*\<close> and an event \<open>order.created\<close>.\<close>

theorem handler_called_with_event_type_witness:
  "(''billing'', always_resolves, [''order.*'']) \<in> set [(''billing'', always_resolves, [''order.*''])]
   \<and> eventMatchesPattern ''order.created'' ''order.*''
   \<and> \<lparr>callee = ''billing'', arg_input = 7, arg_emit_opts = \<lparr>traceId = Some ''trace-1'', metadata = []\<rparr>,
       arg_third = ''order.created''\<rparr>
       \<in> set (calls (publish (subscribeAll [(''billing'', always_resolves, [''order.*''])])
               \<lparr>etype = ''order.created'', edata = 7\<rparr>
               \<lparr>traceId = Some ''trace-1'', metadata = []\<rparr>))"
proof -
  have m: "eventMatchesPattern (etype \<lparr>etype = ''order.created'', edata = 7::nat\<rparr>) ''order.*''"
    by (simp add: eventMatchesPattern_def endsWith_def sliceEnd_def startsWith_def)
  have i: "(''billing'', always_resolves, [''order.*'']) \<in> set [(''billing'', always_resolves, [''order.*''])]"
    by simp
  have p: "''order.*'' \<in> set [''order.*'']" by simp
  show ?thesis
    using handler_called_with_event_type [OF i p m, of "\<lparr>traceId = Some ''trace-1'', metadata = []\<rparr>"] m
    by simp
qed

text \<open>
  C5. When an event is published to the subscribers of the registered components and the
  handler of one matching subscriber rejects, while no called handler stays pending forever,
  the publish resolves; the handler calls made are exactly one call per matching
  subscriber, the rejecting one and all the others, each with the data and the type of the
  same event; and the rejection is written to the console.
\<close>

theorem publish_isolates_rejection:
  assumes "(cid, c, pats) \<in> set comps" and "p \<in> set pats"
    and "eventMatchesPattern (etype ev) p"
    and "c (edata ev) opts (etype ev) = Rejected e"
    and "\<forall>(cid', c', pats') \<in> set comps.
           (\<exists>p' \<in> set pats'. eventMatchesPattern (etype ev) p') \<longrightarrow>
           c' (edata ev) opts (etype ev) \<noteq> Pending"
  shows "outcome (publish (subscribeAll comps) ev opts) = Resolved
         \<and> calls (publish (subscribeAll comps) ev opts) =
             concat (map (\<lambda>(cid', c', pats').
               map (\<lambda>p'. \<lparr>callee = cid', arg_input = edata ev, arg_emit_opts = opts,
                           arg_third = etype ev\<rparr>)
                   (filter (eventMatchesPattern (etype ev)) pats')) comps)
         \<and> e \<in> set (console_errors (publish (subscribeAll comps) ev opts))"
proof (intro conjI)
  have "\<not> (\<exists>s \<in> set (subscribeAll comps). snd (s ev opts) = Pending)"
  proof
    assume "\<exists>s \<in> set (subscribeAll comps). snd (s ev opts) = Pending"
    then obtain cid' c' pats' p' where in_comps: "(cid', c', pats') \<in> set comps"
      and p': "p' \<in> set pats'"
      and pend: "snd (coreSubscriber cid' c' p' ev opts) = Pending"
      by (auto simp: set_subscribeAll)
    from pend have m: "eventMatchesPattern (etype ev) p'"
      and "c' (edata ev) opts (etype ev) = Pending"
      by (auto simp: snd_coreSubscriber split: if_splits)
    with assms(5) in_comps p' show False
      by auto
  qed
  then show "outcome (publish (subscribeAll comps) ev opts) = Resolved"
    by (simp add: outcome_publish)
  show "calls (publish (subscribeAll comps) ev opts) =
             concat (map (\<lambda>(cid', c', pats').
               map (\<lambda>p'. \<lparr>callee = cid', arg_input = edata ev, arg_emit_opts = opts,
                           arg_third = etype ev\<rparr>)
                   (filter (eventMatchesPattern (etype ev)) pats')) comps)"
    by (simp add: calls_subscribeAll delivery_def)
  have "coreSubscriber cid c p \<in> set (subscribeAll comps)"
    using assms(1,2) by (auto simp: set_subscribeAll)
  moreover have "snd (coreSubscriber cid c p ev opts) = Rejected e"
    using assms(3,4) by (simp add: snd_coreSubscriber)
  ultimately show "e \<in> set (console_errors (publish (subscribeAll comps) ev opts))"
    unfolding console_errors_publish by blast
qed

text \<open>
  The theorem of C5 at three components that all match \<open>order.created\<close>, the second of
  which rejects.
\<close>

theorem publish_isolates_rejection_witness:
  "(''billing'', always_rejects, [''order.*'']) \<in> set three_components
   \<and> eventMatchesPattern ''order.created'' ''order.*''
   \<and> always_rejects 7 \<lparr>traceId = None, metadata = []\<rparr> ''order.created'' = Rejected (Error ''boom'')
   \<and> outcome (publish (subscribeAll three_components) \<lparr>etype = ''order.created'', edata = 7\<rparr>
        \<lparr>traceId = None, metadata = []\<rparr>) = Resolved
   \<and> map callee (calls (publish (subscribeAll three_components)
        \<lparr>etype = ''order.created'', edata = 7\<rparr> \<lparr>traceId = None, metadata = []\<rparr>))
      = [''audit'', ''billing'', ''mailer'']"
proof -
  let ?ev = "\<lparr>etype = ''order.created'', edata = 7::nat\<rparr>"
  let ?opts = "\<lparr>traceId = None, metadata = []\<rparr>"
  have i: "(''billing'', always_rejects, [''order.*'']) \<in> set three_components"
    by (simp add: three_components_def)
  have p: "''order.*'' \<in> set [''order.*'']" by simp
  have m: "eventMatchesPattern (etype ?ev) ''order.*''"
    by (simp add: eventMatchesPattern_def endsWith_def sliceEnd_def startsWith_def)
  have r: "always_rejects (edata ?ev) ?opts (etype ?ev) = Rejected (Error ''boom'')"
    by (simp add: always_rejects_def)
  have s: "\<forall>(cid', c', pats') \<in> set three_components.
           (\<exists>p' \<in> set pats'. eventMatchesPattern (etype ?ev) p') \<longrightarrow>
           c' (edata ?ev) ?opts (etype ?ev) \<noteq> Pending"
    by (simp add: three_components_def always_rejects_def always_resolves_def)
  have e: "eventMatchesPattern ''order.created'' ''*''"
     "eventMatchesPattern ''order.created'' ''order.*''"
     "eventMatchesPattern ''order.created'' ''order.created''"
     "\<not> eventMatchesPattern ''order.created'' ''user.created''"
    by (simp_all add: eventMatchesPattern_def endsWith_def sliceEnd_def startsWith_def)
  show ?thesis
    using publish_isolates_rejection [OF i p m r s] i m r
    by (simp add: three_components_def e)
qed
section \<open>Properties of route registration\<close>

lemma startsWith_slash: "startsWith (route_key p) ''/''"
  by (simp add: route_key_def startsWith_def)

lemma route_key_idem: "route_key (route_key p) = route_key p"
  by (simp add: route_key_def startsWith_def)

lemma registerTraffic_Inr:
  "registerTraffic c t = Inr t' \<longleftrightarrow>
     (\<exists>p m tr. path c = Some p \<and> p \<noteq> [] \<and> http_method c = Some m \<and> m \<noteq> [] \<and> transform c = Some tr
        \<and> t' = AList.update (route_key p) c t)"
  by (auto simp: registerTraffic_def split: option.splits)

lemma registerTraffic_error:
  "registerTraffic c t = Inl e \<Longrightarrow> e = Error ''Invalid traffic configuration''"
  by (auto simp: registerTraffic_def split: option.splits if_splits)

lemma config_b_neq_a: "config_b \<noteq> config_a"
proof
  assume "config_b = config_a"
  then have "transform config_b = transform config_a" by simp
  then have "orders_b = orders_a" by (simp add: config_a_def config_b_def)
  then have "orders_b post_orders = orders_a post_orders" by simp
  then show False by (simp add: orders_a_def orders_b_def)
qed

text \<open>
  C2, as stated, fails: two configurations with the path \<open>/orders\<close> and the method
  \<open>POST\<close> are both accepted, and after the second registration the path is served by the
  second configuration, not by the first.
\<close>

theorem registerTraffic_conflict_counterexample:
  "registerTraffic config_a [] = Inr [(''/orders'', config_a)]
   \<and> registerTraffic config_b [(''/orders'', config_a)] = Inr [(''/orders'', config_b)]
   \<and> map_of [(''/orders'', config_b)] ''/orders'' \<noteq> Some config_a"
  using config_b_neq_a
  by (simp add: registerTraffic_def config_a_def config_b_def route_key_def startsWith_def)

text \<open>
  C2, amended. When two traffic configurations are registered for the same route key (each
  of them, registered alone, lands on the key \<open>k\<close>), both registrations succeed without an
  error, the second replaces the first as the configuration of that key, and the entries
  of all other keys are untouched.
\<close>

theorem registerTraffic_last_wins:
  assumes "registerTraffic c1 [] = Inr [(k, c1)]" and "registerTraffic c2 [] = Inr [(k, c2)]"
  shows "\<exists>t1 t2. registerTraffic c1 t = Inr t1 \<and> map_of t1 k = Some c1
           \<and> registerTraffic c2 t1 = Inr t2 \<and> map_of t2 k = Some c2
           \<and> (\<forall>k'. k' \<noteq> k \<longrightarrow> map_of t2 k' = map_of t k')"
proof -
  from assms(1) obtain p1 m1 tr1 where c1: "path c1 = Some p1" "p1 \<noteq> []" "http_method c1 = Some m1"
    "m1 \<noteq> []" "transform c1 = Some tr1" and k1: "route_key p1 = k"
    by (auto simp: registerTraffic_Inr)
  from assms(2) obtain p2 m2 tr2 where c2: "path c2 = Some p2" "p2 \<noteq> []" "http_method c2 = Some m2"
    "m2 \<noteq> []" "transform c2 = Some tr2" and k2: "route_key p2 = k"
    by (auto simp: registerTraffic_Inr)
  let ?t1 = "AList.update k c1 t"
  let ?t2 = "AList.update k c2 ?t1"
  have "registerTraffic c1 t = Inr ?t1"
    using c1 k1 by (simp add: registerTraffic_Inr)
  moreover have "registerTraffic c2 ?t1 = Inr ?t2"
    using c2 k2 by (simp add: registerTraffic_Inr)
  moreover have "map_of ?t1 k = Some c1" "map_of ?t2 k = Some c2"
    by (simp_all add: update_conv')
  moreover have "\<forall>k'. k' \<noteq> k \<longrightarrow> map_of ?t2 k' = map_of t k'"
    by (simp add: update_conv')
  ultimately show ?thesis by blast
qed

text \<open>
  The theorem of C2 at the two configurations for \<open>/orders\<close>.
\<close>

theorem registerTraffic_last_wins_witness:
  "registerTraffic config_a [] = Inr [(''/orders'', config_a)]
   \<and> registerTraffic config_b [] = Inr [(''/orders'', config_b)]
   \<and> (\<exists>t1 t2. registerTraffic config_a [] = Inr t1 \<and> map_of t1 ''/orders'' = Some config_a
           \<and> registerTraffic config_b t1 = Inr t2 \<and> map_of t2 ''/orders'' = Some config_b)"
proof -
  have a: "registerTraffic config_a [] = Inr [(''/orders'', config_a)]"
    by (simp add: registerTraffic_def config_a_def route_key_def startsWith_def)
  have b: "registerTraffic config_b [] = Inr [(''/orders'', config_b)]"
    by (simp add: registerTraffic_def config_b_def route_key_def startsWith_def)
  from registerTraffic_last_wins [OF a b, of "[]"]
  have "\<exists>t1 t2. registerTraffic config_a [] = Inr t1 \<and> map_of t1 ''/orders'' = Some config_a
           \<and> registerTraffic config_b t1 = Inr t2 \<and> map_of t2 ''/orders'' = Some config_b"
    by blast
  with a b show ?thesis
    by (intro conjI)
qed

lemma keys_update: "fst ` set (AList.update k v t) = insert k (fst ` set t)"
  by (induction t) auto

lemma registerAll_keys:
  "registerAll cs t = Inr t' \<Longrightarrow> \<forall>k \<in> fst ` set t. startsWith k ''/''
     \<Longrightarrow> \<forall>k \<in> fst ` set t'. startsWith k ''/''"
proof (induction cs arbitrary: t)
  case Nil
  then show ?case by simp
next
  case (Cons c cs)
  from Cons.prems(1) obtain t1 where r: "registerTraffic c t = Inr t1"
    and rest: "registerAll cs t1 = Inr t'"
    by (auto split: sum.splits)
  from r obtain p where "t1 = AList.update (route_key p) c t"
    by (auto simp: registerTraffic_Inr)
  with Cons.prems(2) have "\<forall>k \<in> fst ` set t1. startsWith k ''/''"
    by (simp add: keys_update startsWith_slash)
  with Cons.IH rest show ?case by blast
qed

text \<open>
  C10. A successful registration stores the configuration under its path, with \<open>/\<close> put
  in front when the path does not start with \<open>/\<close>; a configuration with the path \<open>foo\<close>
  and one with the path \<open>/foo\<close> are both stored under the key \<open>/foo\<close>; and every key of
  a route table built by registrations from the empty table starts with \<open>/\<close>.
\<close>

theorem registerTraffic_normalizes_path:
  "(registerTraffic c t = Inr t' \<longrightarrow>
      (\<exists>p. path c = Some p
         \<and> t' = AList.update (if startsWith p ''/'' then p else ''/'' @ p) c t))
   \<and> (path c1 = Some ''foo'' \<and> path c2 = Some ''/foo''
        \<and> registerTraffic c1 t = Inr t1 \<and> registerTraffic c2 t = Inr t2 \<longrightarrow>
        t1 = AList.update ''/foo'' c1 t \<and> t2 = AList.update ''/foo'' c2 t)
   \<and> (registerAll cs [] = Inr tr \<longrightarrow> (\<forall>k \<in> fst ` set tr. startsWith k ''/''))"
proof (intro conjI impI)
  assume "registerTraffic c t = Inr t'"
  then show "\<exists>p. path c = Some p
         \<and> t' = AList.update (if startsWith p ''/'' then p else ''/'' @ p) c t"
    by (auto simp: registerTraffic_Inr route_key_def)
next
  assume "path c1 = Some ''foo'' \<and> path c2 = Some ''/foo''
        \<and> registerTraffic c1 t = Inr t1 \<and> registerTraffic c2 t = Inr t2"
  then show "t1 = AList.update ''/foo'' c1 t" and "t2 = AList.update ''/foo'' c2 t"
    by (auto simp: registerTraffic_Inr route_key_def startsWith_def)
next
  assume "registerAll cs [] = Inr tr"
  then show "\<forall>k \<in> fst ` set tr. startsWith k ''/''"
    using registerAll_keys [of cs "[]" tr] by simp
qed

text \<open>
  The theorem of C10 at a configuration with the path \<open>foo\<close> and one with \<open>/foo\<close>.
\<close>

theorem registerTraffic_normalizes_path_witness:
  "registerTraffic (config_a\<lparr>path := Some ''foo''\<rparr>) []
     = Inr [(''/foo'', config_a\<lparr>path := Some ''foo''\<rparr>)]
   \<and> registerTraffic (config_b\<lparr>path := Some ''/foo''\<rparr>) []
     = Inr [(''/foo'', config_b\<lparr>path := Some ''/foo''\<rparr>)]
   \<and> registerAll [config_a\<lparr>path := Some ''foo''\<rparr>, config_b] []
       = Inr [(''/foo'', config_a\<lparr>path := Some ''foo''\<rparr>), (''/orders'', config_b)]
   \<and> startsWith ''/foo'' ''/'' \<and> startsWith ''/orders'' ''/''"
proof -
  let ?c1 = "config_a\<lparr>path := Some ''foo''\<rparr>"
  let ?c2 = "config_b\<lparr>path := Some ''/foo''\<rparr>"
  let ?tr = "[(''/foo'', ?c1), (''/orders'', config_b)]"
  have r1: "registerTraffic ?c1 [] = Inr [(''/foo'', ?c1)]"
    by (simp add: registerTraffic_def config_a_def route_key_def startsWith_def)
  have r2: "registerTraffic ?c2 [] = Inr [(''/foo'', ?c2)]"
    by (simp add: registerTraffic_def config_b_def route_key_def startsWith_def)
  have r3: "registerTraffic config_b [(''/foo'', ?c1)] = Inr ?tr"
    by (simp add: registerTraffic_def config_b_def route_key_def startsWith_def)
  have ra: "registerAll [?c1, config_b] [] = Inr ?tr"
    by (simp add: r1 r3)
  note T = registerTraffic_normalizes_path
      [of ?c1 "[]" "[(''/foo'', ?c1)]" ?c1 ?c2 "[(''/foo'', ?c1)]" "[(''/foo'', ?c2)]"
          "[?c1, config_b]" ?tr]
  from T have "registerAll [?c1, config_b] [] = Inr ?tr
      \<longrightarrow> (\<forall>k \<in> fst ` set ?tr. startsWith k ''/'')"
    by (rule conjunct2 [THEN conjunct2])
  then have inv: "\<forall>k \<in> fst ` set ?tr. startsWith k ''/''"
    using ra by (rule mp)
  from inv have s: "startsWith ''/foo'' ''/'' \<and> startsWith ''/orders'' ''/''"
    by simp
  show ?thesis
    by (rule conjI [OF r1 conjI [OF r2 conjI [OF ra s]]])
qed

section \<open>Properties of request handling\<close>

lemma respond_simps:
  "fst (respond env st b w) = (case res_json env st b of None \<Rightarrow> Resolved | Some e \<Rightarrow> Rejected e)"
  "responses (snd (respond env st b w)) = responses w @ [(st, b)]"
  "emitted (snd (respond env st b w)) = emitted w"
  "transform_calls (snd (respond env st b w)) = transform_calls w"
  "authorize_calls (snd (respond env st b w)) = authorize_calls w"
  by (simp_all add: respond_def)

lemma respond_not_Pending: "fst (respond env st b w) \<noteq> Pending"
  by (simp add: respond_def split: option.splits)




lemma handleRequest_caught:
  assumes "map_of traffic (req_path req) = Some t" and "try_block env t req w = (Rejected e, w1)"
  shows "handleRequest env traffic req w = respond env 400 (ErrorBody (message e)) w1"
  using assms by (simp add: handleRequest_def)

lemma route_handler_caught:
  assumes "map_of traffic (req_path req) = Some t" and "try_block env t req w = (Rejected e, w1)"
  shows "responses (snd (route_handler env traffic req w))
         = responses w1 @ (400, ErrorBody (message e))
             # (case res_json env 400 (ErrorBody (message e)) of
                  None \<Rightarrow> []
                | Some e' \<Rightarrow> [(500, ErrorBody (message e'))])"
proof (cases "res_json env 400 (ErrorBody (message e))")
  case None
  then show ?thesis
    using handleRequest_caught [OF assms]
    by (simp add: route_handler_def respond_def)
next
  case (Some e')
  then show ?thesis
    using handleRequest_caught [OF assms]
    by (simp add: route_handler_def respond_def)
qed

lemma try_block_authorized:
  assumes "authorize t = None \<or> (\<exists>a. authorize t = Some a \<and> a req = Resolved)"
  shows "\<exists>w0. try_block env t req w = transform_and_emit env t req w0
              \<and> responses w0 = responses w"
proof (cases "authorize t")
  case None
  then have "try_block env t req w = transform_and_emit env t req w"
    by (simp add: try_block_def)
  then show ?thesis by blast
next
  case (Some a)
  with assms have "a req = Resolved" by auto
  with Some have "try_block env t req w
      = transform_and_emit env t req (w\<lparr>authorize_calls := Suc (authorize_calls w)\<rparr>)"
    by (simp add: try_block_def Let_def)
  moreover have "responses (w\<lparr>authorize_calls := Suc (authorize_calls w)\<rparr>) = responses w"
    by simp
  ultimately show ?thesis by blast
qed

lemma transform_throws:
  assumes "transform t = Some tr" and "tr req = Throws e"
  shows "\<exists>w1. transform_and_emit env t req w = (Rejected e, w1) \<and> responses w1 = responses w"
  using assms by (simp add: transform_and_emit_def Let_def)

lemma emit_rejects:
  assumes "transform t = Some tr" and "tr req = Returns ev"
    and "core_emit env ev (emit_options req) = Rejected e"
  shows "\<exists>w1. transform_and_emit env t req w = (Rejected e, w1) \<and> responses w1 = responses w"
  using assms by (simp add: transform_and_emit_def Let_def)

lemma success_write_throws:
  assumes "transform t = Some tr" and "tr req = Returns ev"
    and "core_emit env ev (emit_options req) = Resolved"
    and "res_json env 200 (SuccessBody (etype ev)) = Some e"
  shows "\<exists>w1. transform_and_emit env t req w = (Rejected e, w1)
              \<and> responses w1 = responses w @ [(200, SuccessBody (etype ev))]"
  using assms by (simp add: transform_and_emit_def Let_def respond_def)

lemma responses_fresh: "responses fresh = []"
  by (simp add: fresh_def)

text \<open>
  C8, as stated, fails: on a route whose transform succeeds, a rejected \<open>core.emit\<close> is
  answered with 400, not with 500.
\<close>

theorem emit_failure_counterexample:
  "orders_a post_orders = Returns \<lparr>etype = ''order.created'', edata = 1\<rparr>
   \<and> bus_down \<lparr>etype = ''order.created'', edata = 1\<rparr> (emit_options post_orders)
       = Rejected (Error ''bus down'')
   \<and> transform_calls (snd (route_handler \<lparr>core_emit = bus_down, res_json = json_ok\<rparr>
        [(''/orders'', config_a)] post_orders fresh)) = 1
   \<and> responses (snd (route_handler \<lparr>core_emit = bus_down, res_json = json_ok\<rparr>
        [(''/orders'', config_a)] post_orders fresh)) = [(400, ErrorBody ''bus down'')]"
  by (simp add: route_handler_def handleRequest_def try_block_def transform_and_emit_def
      respond_def config_a_def post_orders_def orders_a_def bus_down_def json_ok_def fresh_def)

text \<open>
  C8, amended. For a request on a registered route whose authorization check is absent or
  passes: an error thrown by the transform yields a 400 response with the message of the
  error; a failure after a successful transform, be it a rejected \<open>core.emit\<close> or an error
  thrown while the 200 response is written, yields a 400 response as well, since both
  sit in the same \<open>try\<close> block as the transform. A 500 response is written only after the
  400 response, when writing the 400 response itself throws.
\<close>

theorem failures_in_try_block_yield_400:
  assumes "map_of traffic (req_path req) = Some t" and "transform t = Some tr"
    and "authorize t = None \<or> (\<exists>a. authorize t = Some a \<and> a req = Resolved)"
  shows "(tr req = Throws e \<longrightarrow>
            responses (snd (route_handler env traffic req fresh))
            = (400, ErrorBody (message e))
                # (case res_json env 400 (ErrorBody (message e)) of
                     None \<Rightarrow> [] | Some e' \<Rightarrow> [(500, ErrorBody (message e'))]))
         \<and> (tr req = Returns ev \<and> core_emit env ev (emit_options req) = Rejected e \<longrightarrow>
            responses (snd (route_handler env traffic req fresh))
            = (400, ErrorBody (message e))
                # (case res_json env 400 (ErrorBody (message e)) of
                     None \<Rightarrow> [] | Some e' \<Rightarrow> [(500, ErrorBody (message e'))]))
         \<and> (tr req = Returns ev \<and> core_emit env ev (emit_options req) = Resolved
              \<and> res_json env 200 (SuccessBody (etype ev)) = Some e \<longrightarrow>
            responses (snd (route_handler env traffic req fresh))
            = (200, SuccessBody (etype ev)) # (400, ErrorBody (message e))
                # (case res_json env 400 (ErrorBody (message e)) of
                     None \<Rightarrow> [] | Some e' \<Rightarrow> [(500, ErrorBody (message e'))]))"
proof -
  from try_block_authorized [OF assms(3), where env = env and w = fresh] obtain w0
    where tb: "try_block env t req fresh = transform_and_emit env t req w0"
      and r0: "responses w0 = []"
    by (auto simp: responses_fresh)
  show ?thesis
  proof (intro conjI impI)
    assume "tr req = Throws e"
    from transform_throws [OF assms(2) this, of env w0] obtain w1
      where "try_block env t req fresh = (Rejected e, w1)" and "responses w1 = []"
      by (auto simp: tb r0)
    with route_handler_caught [OF assms(1), of env fresh e w1] show
      "responses (snd (route_handler env traffic req fresh))
            = (400, ErrorBody (message e))
                # (case res_json env 400 (ErrorBody (message e)) of
                     None \<Rightarrow> [] | Some e' \<Rightarrow> [(500, ErrorBody (message e'))])"
      by simp
  next
    assume a: "tr req = Returns ev \<and> core_emit env ev (emit_options req) = Rejected e"
    from emit_rejects [OF assms(2) conjunct1 [OF a] conjunct2 [OF a], of w0] obtain w1
      where "try_block env t req fresh = (Rejected e, w1)" and "responses w1 = []"
      by (auto simp: tb r0)
    with route_handler_caught [OF assms(1), of env fresh e w1] show
      "responses (snd (route_handler env traffic req fresh))
            = (400, ErrorBody (message e))
                # (case res_json env 400 (ErrorBody (message e)) of
                     None \<Rightarrow> [] | Some e' \<Rightarrow> [(500, ErrorBody (message e'))])"
      by simp
  next
    assume a: "tr req = Returns ev \<and> core_emit env ev (emit_options req) = Resolved
              \<and> res_json env 200 (SuccessBody (etype ev)) = Some e"
    then have a1: "tr req = Returns ev" and a2: "core_emit env ev (emit_options req) = Resolved"
      and a3: "res_json env 200 (SuccessBody (etype ev)) = Some e"
      by simp_all
    from success_write_throws [OF assms(2) a1 a2 a3, of w0] obtain w1
      where "try_block env t req fresh = (Rejected e, w1)"
        and "responses w1 = [(200, SuccessBody (etype ev))]"
      by (auto simp: tb r0)
    with route_handler_caught [OF assms(1), of env fresh e w1] show
      "responses (snd (route_handler env traffic req fresh))
            = (200, SuccessBody (etype ev)) # (400, ErrorBody (message e))
                # (case res_json env 400 (ErrorBody (message e)) of
                     None \<Rightarrow> [] | Some e' \<Rightarrow> [(500, ErrorBody (message e'))])"
      by simp
  qed
qed

text \<open>
  The theorem of C8 at a transform that throws, at a message bus that rejects, and at a
  response object that throws on the 200 response.
\<close>

theorem failures_in_try_block_yield_400_witness:
  "broken_transform post_orders = Throws (Error ''bad payload'')
   \<and> responses (snd (route_handler \<lparr>core_emit = bus_ok, res_json = json_ok\<rparr>
        [(''/orders'', config_a\<lparr>transform := Some broken_transform\<rparr>)] post_orders fresh))
      = [(400, ErrorBody ''bad payload'')]
   \<and> orders_b post_orders = Returns \<lparr>etype = ''order.received'', edata = 2\<rparr>
   \<and> bus_down \<lparr>etype = ''order.received'', edata = 2\<rparr> (emit_options post_orders)
      = Rejected (Error ''bus down'')
   \<and> responses (snd (route_handler \<lparr>core_emit = bus_down, res_json = json_ok\<rparr>
        [(''/orders'', config_b)] post_orders fresh))
      = [(400, ErrorBody ''bus down'')]
   \<and> bus_ok \<lparr>etype = ''order.received'', edata = 2\<rparr> (emit_options post_orders) = Resolved
   \<and> json_fails_200 200 (SuccessBody ''order.received'') = Some (Error ''write failed'')
   \<and> responses (snd (route_handler \<lparr>core_emit = bus_ok, res_json = json_fails_200\<rparr>
        [(''/orders'', config_b)] post_orders fresh))
      = [(200, SuccessBody ''order.received''), (400, ErrorBody ''write failed'')]"
proof -
  let ?ca = "config_a\<lparr>transform := Some broken_transform\<rparr>"
  let ?ev = "\<lparr>etype = ''order.received'', edata = 2::nat\<rparr>"
  have ra: "map_of [(''/orders'', ?ca)] (req_path post_orders) = Some ?ca"
    and rb: "map_of [(''/orders'', config_b)] (req_path post_orders) = Some config_b"
    by (simp_all add: post_orders_def)
  have ta: "transform ?ca = Some broken_transform" and tb: "transform config_b = Some orders_b"
    by (simp_all add: config_b_def)
  have aa: "authorize ?ca = None \<or> (\<exists>a. authorize ?ca = Some a \<and> a post_orders = Resolved)"
    and ab: "authorize config_b = None
             \<or> (\<exists>a. authorize config_b = Some a \<and> a post_orders = Resolved)"
    by (simp_all add: config_a_def config_b_def)
  have h1: "broken_transform post_orders = Throws (Error ''bad payload'')"
    by (simp add: broken_transform_def)
  have h2: "orders_b post_orders = Returns ?ev"
    by (simp add: orders_b_def)
  have h3: "bus_down ?ev (emit_options post_orders) = Rejected (Error ''bus down'')"
    by (simp add: bus_down_def)
  have h4: "bus_ok ?ev (emit_options post_orders) = Resolved"
    by (simp add: bus_ok_def)
  have h5: "json_fails_200 200 (SuccessBody ''order.received'') = Some (Error ''write failed'')"
    by (simp add: json_fails_200_def)
  note A = failures_in_try_block_yield_400 [OF ra ta aa,
      of "Error ''bad payload''" "\<lparr>core_emit = bus_ok, res_json = json_ok\<rparr>" ?ev]
  note B = failures_in_try_block_yield_400 [OF rb tb ab,
      of "Error ''bus down''" "\<lparr>core_emit = bus_down, res_json = json_ok\<rparr>" ?ev]
  note C = failures_in_try_block_yield_400 [OF rb tb ab,
      of "Error ''write failed''" "\<lparr>core_emit = bus_ok, res_json = json_fails_200\<rparr>" ?ev]
  have c1: "responses (snd (route_handler \<lparr>core_emit = bus_ok, res_json = json_ok\<rparr>
        [(''/orders'', ?ca)] post_orders fresh)) = [(400, ErrorBody ''bad payload'')]"
    using A h1 by (simp add: json_ok_def)
  have c2: "responses (snd (route_handler \<lparr>core_emit = bus_down, res_json = json_ok\<rparr>
        [(''/orders'', config_b)] post_orders fresh)) = [(400, ErrorBody ''bus down'')]"
    using B h2 h3 by (simp add: json_ok_def)
  have c3: "responses (snd (route_handler \<lparr>core_emit = bus_ok, res_json = json_fails_200\<rparr>
        [(''/orders'', config_b)] post_orders fresh))
      = [(200, SuccessBody ''order.received''), (400, ErrorBody ''write failed'')]"
    using C h2 h4 h5 by (simp add: json_fails_200_def)
  show ?thesis
    using h1 h2 h3 h4 h5 c1 c2 c3 by (intro conjI)
qed

lemma emitted_transform_and_emit:
  "set (emitted (snd (transform_and_emit env t req w)))
   \<subseteq> set (emitted w) \<union> {p. snd p = emit_options req}"
  by (auto simp: transform_and_emit_def Let_def respond_def
      split: option.splits awaited.splits settle.splits)

lemma emitted_try_block:
  "set (emitted (snd (try_block env t req w)))
   \<subseteq> set (emitted w) \<union> {p. snd p = emit_options req}"
proof (cases "authorize t")
  case None
  then show ?thesis
    using emitted_transform_and_emit [of env t req w] by (simp add: try_block_def)
next
  case (Some auth)
  let ?w1 = "w\<lparr>authorize_calls := Suc (authorize_calls w)\<rparr>"
  show ?thesis
  proof (cases "auth req")
    case Resolved
    with Some show ?thesis
      using emitted_transform_and_emit [of env t req ?w1] by (simp add: try_block_def Let_def)
  next
    case (Rejected e)
    with Some show ?thesis
      by (simp add: try_block_def Let_def respond_simps)
  next
    case Pending
    with Some show ?thesis
      by (simp add: try_block_def Let_def)
  qed
qed

lemma emitted_handleRequest:
  "set (emitted (snd (handleRequest env traffic req w)))
   \<subseteq> set (emitted w) \<union> {p. snd p = emit_options req}"
proof (cases "map_of traffic (req_path req)")
  case None
  then show ?thesis
    by (simp add: handleRequest_def respond_simps)
next
  case (Some t)
  obtain r w1 where tb: "try_block env t req w = (r, w1)"
    by (cases "try_block env t req w") auto
  with emitted_try_block [of env t req w]
  have sub: "set (emitted w1) \<subseteq> set (emitted w) \<union> {p. snd p = emit_options req}"
    by simp
  show ?thesis
    using Some tb sub by (cases r) (simp_all add: handleRequest_def respond_simps)
qed

text \<open>
  C3, as stated, fails on both adapters. \<open>handleRequest\<close> mints nothing: a request without
  the header \<open>x-trace-id\<close> emits with an undefined trace id. \<open>asyncHandler\<close> does not read
  the header: a request that carries \<open>x-trace-id: abc\<close> emits under the minted id.
\<close>

theorem trace_id_counterexample:
  "emitted (snd (handleRequest \<lparr>core_emit = bus_ok, res_json = json_ok\<rparr>
      [(''/orders'', config_a)] post_orders fresh))
   = [(\<lparr>etype = ''order.created'', edata = 1\<rparr>,
       \<lparr>traceId = None,
        metadata = [(''source'', ''http''), (''path'', ''/orders''), (''method'', ''POST'')]\<rparr>)]
   \<and> fst (asyncHandler ''uuid-1'' [''orders''] ''steps/orders.step.ts'' emitting_handler
        \<lparr>ar_body = 5, ar_headers = [(''x-trace-id'', ''abc'')]\<rparr>)
   = [(\<lparr>ev_data = 5, ev_type = ''order.created'', ev_traceId = ''uuid-1'',
        ev_flows = [''orders'']\<rparr>, ''steps/orders.step.ts'')]"
  by (simp add: handleRequest_def try_block_def transform_and_emit_def respond_def
      config_a_def post_orders_def orders_a_def bus_ok_def json_ok_def fresh_def
      emit_options_def asyncHandler_def emitting_handler_def)

text \<open>
  C3, amended. Every emit of \<open>handleRequest\<close> carries as trace id the value of the
  request's \<open>x-trace-id\<close> header, which is undefined when the request has no such header;
  every event that a handler emits through \<open>asyncHandler\<close> carries the id minted for the
  request by \<open>randomUUID\<close>, whatever the headers of the request are.
\<close>

theorem trace_id_of_emitted_events:
  "(\<forall>(ev, opts) \<in> set (emitted (snd (handleRequest env traffic req fresh))).
      traceId opts = map_of (req_headers req) ''x-trace-id'')
   \<and> (\<forall>(ev, fp) \<in> set (fst (asyncHandler uuid flows filePath handler areq)).
      ev_traceId ev = uuid)"
proof
  show "\<forall>(ev, opts) \<in> set (emitted (snd (handleRequest env traffic req fresh))).
      traceId opts = map_of (req_headers req) ''x-trace-id''"
    using emitted_handleRequest [of env traffic req fresh]
    by (auto simp: fresh_def emit_options_def)
  show "\<forall>(ev, fp) \<in> set (fst (asyncHandler uuid flows filePath handler areq)).
      ev_traceId ev = uuid"
    by (auto simp: asyncHandler_def Let_def split: prod.splits)
qed

text \<open>
  The theorem of C3 at a request with the header \<open>x-trace-id: abc\<close> for \<open>handleRequest\<close>
  and at a minted id \<open>uuid-1\<close> for \<open>asyncHandler\<close>.
\<close>

theorem trace_id_of_emitted_events_witness:
  "emitted (snd (handleRequest \<lparr>core_emit = bus_ok, res_json = json_ok\<rparr>
      [(''/orders'', config_a)] post_orders_traced fresh))
   = [(\<lparr>etype = ''order.created'', edata = 1\<rparr>,
       \<lparr>traceId = Some ''abc'',
        metadata = [(''source'', ''http''), (''path'', ''/orders''), (''method'', ''POST'')]\<rparr>)]
   \<and> map_of (req_headers post_orders_traced) ''x-trace-id'' = Some ''abc''
   \<and> fst (asyncHandler ''uuid-1'' [''orders''] ''steps/orders.step.ts'' emitting_handler
        \<lparr>ar_body = 5, ar_headers = []\<rparr>)
   = [(\<lparr>ev_data = 5, ev_type = ''order.created'', ev_traceId = ''uuid-1'',
        ev_flows = [''orders'']\<rparr>, ''steps/orders.step.ts'')]"
proof -
  let ?env = "\<lparr>core_emit = bus_ok, res_json = json_ok\<rparr>"
  let ?ev = "\<lparr>etype = ''order.created'', edata = 1::nat\<rparr>"
  let ?md = "[(''source'', ''http''), (''path'', ''/orders''), (''method'', ''POST'')]"
  let ?areq = "\<lparr>ar_body = 5::nat, ar_headers = []\<rparr>"
  have e: "\<exists>tid. emitted (snd (handleRequest ?env [(''/orders'', config_a)] post_orders_traced fresh))
           = [(?ev, \<lparr>traceId = tid, metadata = ?md\<rparr>)]"
    by (simp add: handleRequest_def try_block_def transform_and_emit_def respond_def
      config_a_def post_orders_traced_def orders_a_def bus_ok_def json_ok_def fresh_def
      emit_options_def)
  then obtain tid where em: "emitted (snd (handleRequest ?env [(''/orders'', config_a)]
      post_orders_traced fresh)) = [(?ev, \<lparr>traceId = tid, metadata = ?md\<rparr>)]"
    by blast
  have a: "\<exists>u. fst (asyncHandler ''uuid-1'' [''orders''] ''steps/orders.step.ts'' emitting_handler ?areq)
        = [(\<lparr>ev_data = 5, ev_type = ''order.created'', ev_traceId = u,
             ev_flows = [''orders'']\<rparr>, ''steps/orders.step.ts'')]"
    by (simp add: asyncHandler_def emitting_handler_def)
  then obtain u where as: "fst (asyncHandler ''uuid-1'' [''orders''] ''steps/orders.step.ts''
      emitting_handler ?areq)
        = [(\<lparr>ev_data = 5, ev_type = ''order.created'', ev_traceId = u,
             ev_flows = [''orders'']\<rparr>, ''steps/orders.step.ts'')]"
    by blast
  note T = trace_id_of_emitted_events [of ?env "[(''/orders'', config_a)]" post_orders_traced
      "''uuid-1''" "[''orders'']" "''steps/orders.step.ts''" emitting_handler ?areq]
  have h: "map_of (req_headers post_orders_traced) ''x-trace-id'' = Some ''abc''"
    by (simp add: post_orders_traced_def)
  from T em have "tid = map_of (req_headers post_orders_traced) ''x-trace-id''"
    by simp
  with h have t1: "tid = Some ''abc''" by simp
  from T as have t2: "u = ''uuid-1''"
    by simp
  show ?thesis
    using em as h unfolding t1 t2 by (intro conjI)
qed

section \<open>Properties of the scheduler\<close>

lemmas parseSchedule_eval =
  parseSchedule_def timeRegex_def isDigit_def parseInt10_def digitValue_def

lemma split_space_nonempty: "split_space s \<noteq> []"
  by (induction s) auto

lemma length_split_space: "length (split_space s) = Suc (count_list s CHR '' '')"
proof (induction s)
  case Nil
  show ?case by simp
next
  case (Cons c cs)
  have "length (tl (split_space cs)) = length (split_space cs) - 1"
    by simp
  with Cons split_space_nonempty [of cs] show ?case
    by (cases "split_space cs") auto
qed

text \<open>The tokens of a string are the pieces of \<^verbatim>\<open>split(" ")\<close> that are not empty.\<close>

lemma tokens_from_split_space:
  "tokens_from cur s
   = filter (\<lambda>t. t \<noteq> []) ((cur @ hd (split_space s)) # tl (split_space s))"
proof (induction s arbitrary: cur)
  case Nil
  show ?case by simp
next
  case (Cons c cs)
  have "split_space cs \<noteq> []" by (rule split_space_nonempty)
  then have whole: "hd (split_space cs) # tl (split_space cs) = split_space cs" by simp
  show ?case
  proof (cases "c = CHR '' ''")
    case True
    have "tokens_from [] cs = filter (\<lambda>t. t \<noteq> []) (split_space cs)"
      using Cons.IH [of "[]"] whole by simp
    with True show ?thesis by simp
  next
    case False
    with Cons.IH [of "cur @ [c]"] show ?thesis by simp
  qed
qed

lemma tokens_split_space: "tokens s = filter (\<lambda>t. t \<noteq> []) (split_space s)"
proof -
  have "split_space s \<noteq> []" by (rule split_space_nonempty)
  then have "hd (split_space s) # tl (split_space s) = split_space s" by simp
  with tokens_from_split_space [of "[]" s] show ?thesis
    by (simp add: tokens_def)
qed

text \<open>
  Five tokens with single spaces between them and no space before or after: no piece of
  the split is empty, and the split has five pieces.
\<close>

lemma five_tokens_single_spaced:
  assumes "five_token_form s" and "[] \<notin> set (split_space s)"
  shows "length (split_space s) = 5"
proof -
  from assms(2) have "filter (\<lambda>t. t \<noteq> []) (split_space s) = split_space s"
    by (simp add: filter_id_conv) metis
  with assms(1) show ?thesis
    by (simp add: five_token_form_def tokens_split_space)
qed

lemma isDigit_not_space: "isDigit c \<Longrightarrow> c \<noteq> CHR '' ''"
  by (auto simp: isDigit_def)

lemma timeRegex_Some:
  "timeRegex s = Some (v, u) \<longleftrightarrow>
     s = v @ [u] \<and> v \<noteq> [] \<and> list_all isDigit v \<and> u \<in> set ''smhd''"
proof
  assume "timeRegex s = Some (v, u)"
  then have d: "dropWhile isDigit s = [u]" and v: "v = takeWhile isDigit s" and ne: "v \<noteq> []"
    and u: "u \<in> set ''smhd''"
    by (auto simp: timeRegex_def Let_def split: list.splits if_splits)
  have "s = takeWhile isDigit s @ dropWhile isDigit s" by simp
  with d v have "s = v @ [u]" by simp
  moreover have "list_all isDigit v"
    unfolding v by (simp add: list_all_iff) (meson set_takeWhileD)
  ultimately show "s = v @ [u] \<and> v \<noteq> [] \<and> list_all isDigit v \<and> u \<in> set ''smhd''"
    using ne u by simp
next
  assume a: "s = v @ [u] \<and> v \<noteq> [] \<and> list_all isDigit v \<and> u \<in> set ''smhd''"
  then have nd: "\<not> isDigit u" by (auto simp: isDigit_def)
  from a have all: "\<forall>x \<in> set v. isDigit x" by (simp add: list_all_iff)
  have "takeWhile isDigit s = v"
    using a all nd by (simp add: takeWhile_append2)
  moreover have "dropWhile isDigit s = [u]"
    using a all nd by (simp add: dropWhile_append2)
  ultimately show "timeRegex s = Some (v, u)"
    using a by (simp add: timeRegex_def Let_def)
qed

lemma duration_form_iff: "duration_form s \<longleftrightarrow> (\<exists>v u. timeRegex s = Some (v, u))"
proof
  assume "duration_form s"
  then have "s = butlast s @ [last s]" and "butlast s \<noteq> []" and "list_all isDigit (butlast s)"
    and "last s \<in> set ''smhd''"
    by (simp_all add: duration_form_def)
  then have "timeRegex s = Some (butlast s, last s)"
    by (subst timeRegex_Some) simp
  then show "\<exists>v u. timeRegex s = Some (v, u)" by blast
next
  assume "\<exists>v u. timeRegex s = Some (v, u)"
  then obtain v u where "s = v @ [u]" "v \<noteq> []" "list_all isDigit v" "u \<in> set ''smhd''"
    by (auto simp: timeRegex_Some)
  then show "duration_form s"
    by (simp add: duration_form_def)
qed

lemma duration_form_value:
  assumes "duration_form s"
  shows "parseSchedule s =
           Inr (parseInt10 (butlast s) *
                (if last s = CHR ''s'' then 1000 else if last s = CHR ''m'' then 60000
                 else if last s = CHR ''h'' then 3600000 else 86400000))"
proof -
  from assms have "s = butlast s @ [last s]" and "butlast s \<noteq> []"
    and "list_all isDigit (butlast s)" and u: "last s \<in> set ''smhd''"
    by (simp_all add: duration_form_def)
  then have "timeRegex s = Some (butlast s, last s)"
    by (subst timeRegex_Some) simp
  with u show ?thesis
    by (auto simp: parseSchedule_def Let_def)
qed

lemma no_space_in_duration:
  assumes "timeRegex s = Some (v, u)"
  shows "count_list s CHR '' '' = 0"
proof -
  from assms have s: "s = v @ [u]" and v: "list_all isDigit v" and u: "u \<in> set ''smhd''"
    by (simp_all add: timeRegex_Some)
  from v have "CHR '' '' \<notin> set v"
    by (auto simp: list_all_iff dest: isDigit_not_space)
  moreover from u have "u \<noteq> CHR '' ''" by auto
  ultimately show ?thesis
    by (simp add: s count_list_0_iff)
qed

lemma parseSchedule_five_pieces:
  assumes "length (split_space s) = 5"
  shows "parseSchedule s = Inr 3600000"
proof (cases "timeRegex s")
  case None
  with assms show ?thesis
    by (simp add: parseSchedule_def)
next
  case (Some vu)
  obtain v u where "vu = (v, u)" by (cases vu)
  with Some no_space_in_duration [of s v u] assms show ?thesis
    by (simp add: length_split_space)
qed

lemma parseSchedule_invalid:
  assumes "\<not> duration_form s" and "length (split_space s) \<noteq> 5"
  shows "parseSchedule s = Inl (Error (''Invalid schedule format: '' @ s))"
proof -
  from assms(1) have "timeRegex s = None"
    by (cases "timeRegex s") (auto simp: duration_form_iff)
  with assms(2) show ?thesis
    by (simp add: parseSchedule_def)
qed

lemma parseSchedule_error_message:
  "parseSchedule s = Inl e \<Longrightarrow> e = Error (''Invalid schedule format: '' @ s)"
  by (auto simp: parseSchedule_def Let_def split: option.splits if_splits)

text \<open>
  C9, as stated, fails in both directions on strings of tokens. A string of four spaces
  has no token at all, and \<open>a  b  c\<close> has three; neither is a duration nor a string of five
  tokens, and yet both are mapped to 3600000 instead of raising an error. The string
  \<open>0  12 * * 1\<close>, with two spaces after the first token, has five space-separated tokens,
  and yet the parser raises the error on it.
\<close>

theorem parseSchedule_tokens_counterexample:
  "\<not> duration_form ''    '' \<and> \<not> five_token_form ''    ''
   \<and> parseSchedule ''    '' = Inr 3600000
   \<and> \<not> duration_form ''a  b  c'' \<and> \<not> five_token_form ''a  b  c''
   \<and> parseSchedule ''a  b  c'' = Inr 3600000
   \<and> five_token_form ''0  12 * * 1''
   \<and> parseSchedule ''0  12 * * 1'' = Inl (Error ''Invalid schedule format: 0  12 * * 1'')"
  by (simp add: parseSchedule_eval duration_form_def five_token_form_def tokens_def)

text \<open>
  C9, amended. The schedule parser maps \<open>30s\<close> to 30000 and \<open>2h\<close> to 7200000 milliseconds,
  and \<open>* * * * *\<close> to the fixed 3600000 milliseconds. It maps to 3600000 every string that
  \<^verbatim>\<open>split(" ")\<close> cuts into exactly five pieces, empty pieces counted, which are the strings
  with exactly four space characters; among them is every string of five tokens with
  single spaces between them and none before or after. It raises the error
  \<open>Invalid schedule format\<close>, which quotes the string, on \<open>abc\<close> and on every string that is
  neither an integer followed by one of the units \<open>s\<close>, \<open>m\<close>, \<open>h\<close>, \<open>d\<close> nor cut into exactly
  five pieces.
\<close>

theorem parseSchedule_forms:
  "parseSchedule ''30s'' = Inr 30000
   \<and> parseSchedule ''2h'' = Inr 7200000
   \<and> parseSchedule ''* * * * *'' = Inr 3600000
   \<and> (length (split_space s) = 5) = (count_list s CHR '' '' = 4)
   \<and> (length (split_space s) = 5 \<longrightarrow> parseSchedule s = Inr 3600000)
   \<and> (five_token_form t \<and> [] \<notin> set (split_space t) \<longrightarrow> parseSchedule t = Inr 3600000)
   \<and> parseSchedule ''abc'' = Inl (Error ''Invalid schedule format: abc'')
   \<and> (\<not> duration_form s' \<and> length (split_space s') \<noteq> 5 \<longrightarrow>
        parseSchedule s' = Inl (Error (''Invalid schedule format: '' @ s')))"
proof (intro conjI impI)
  show "parseSchedule ''30s'' = Inr 30000"
    by (simp add: parseSchedule_eval)
  show "parseSchedule ''2h'' = Inr 7200000"
    by (simp add: parseSchedule_eval)
  show "parseSchedule ''* * * * *'' = Inr 3600000"
    by (simp add: parseSchedule_eval)
  show "parseSchedule ''abc'' = Inl (Error ''Invalid schedule format: abc'')"
    by (simp add: parseSchedule_eval)
  show "(length (split_space s) = 5) = (count_list s CHR '' '' = 4)"
    by (simp add: length_split_space)
  show "parseSchedule s = Inr 3600000" if "length (split_space s) = 5"
    using that by (rule parseSchedule_five_pieces)
  show "parseSchedule t = Inr 3600000" if "five_token_form t \<and> [] \<notin> set (split_space t)"
    using that by (simp add: parseSchedule_five_pieces five_tokens_single_spaced)
  show "parseSchedule s' = Inl (Error (''Invalid schedule format: '' @ s'))"
    if "\<not> duration_form s' \<and> length (split_space s') \<noteq> 5"
    using that by (simp add: parseSchedule_invalid)
qed

text \<open>
  The theorem of C9 at the string \<open>    \<close> of four spaces, at the five-token string
  \<open>0 12 * * 1\<close>, and at the strings \<open>10 minutes\<close> and \<open>0  12 * * 1\<close>, which are neither a
  duration nor cut into five pieces.
\<close>

theorem parseSchedule_forms_witness:
  "length (split_space ''    '') = 5 \<and> parseSchedule ''    '' = Inr 3600000
   \<and> five_token_form ''0 12 * * 1'' \<and> [] \<notin> set (split_space ''0 12 * * 1'')
   \<and> parseSchedule ''0 12 * * 1'' = Inr 3600000
   \<and> \<not> duration_form ''10 minutes'' \<and> length (split_space ''10 minutes'') \<noteq> 5
   \<and> parseSchedule ''10 minutes'' = Inl (Error ''Invalid schedule format: 10 minutes'')
   \<and> \<not> duration_form ''0  12 * * 1'' \<and> length (split_space ''0  12 * * 1'') \<noteq> 5
   \<and> parseSchedule ''0  12 * * 1'' = Inl (Error ''Invalid schedule format: 0  12 * * 1'')"
proof -
  have p: "length (split_space ''    '') = 5"
    by simp
  have f: "five_token_form ''0 12 * * 1'' \<and> [] \<notin> set (split_space ''0 12 * * 1'')"
    by (simp add: five_token_form_def tokens_def)
  have n: "\<not> duration_form ''10 minutes'' \<and> length (split_space ''10 minutes'') \<noteq> 5"
    by (simp add: duration_form_def isDigit_def)
  have m: "\<not> duration_form ''0  12 * * 1'' \<and> length (split_space ''0  12 * * 1'') \<noteq> 5"
    by (simp add: duration_form_def isDigit_def)
  note T1 = parseSchedule_forms [of "''    ''" "''0 12 * * 1''" "''10 minutes''"]
  note T2 = parseSchedule_forms [of "''    ''" "''0 12 * * 1''" "''0  12 * * 1''"]
  from T1 p have a: "parseSchedule ''    '' = Inr 3600000"
    by blast
  from T1 f have b: "parseSchedule ''0 12 * * 1'' = Inr 3600000"
    by blast
  from T1 n have c: "parseSchedule ''10 minutes''
      = Inl (Error (''Invalid schedule format: '' @ ''10 minutes''))"
    by blast
  from T2 m have d: "parseSchedule ''0  12 * * 1''
      = Inl (Error (''Invalid schedule format: '' @ ''0  12 * * 1''))"
    by blast
  show ?thesis
    using p f n m a b c d by simp
qed

lemma start_prefix:
  assumes "\<forall>(i, sc) \<in> set pre. \<exists>ms. parseSchedule (interval sc) = Inr ms"
    and "parseSchedule (interval s) = Inl e"
  shows "fst (start (pre @ (sid, s) # post) jobs) = Some e
         \<and> fst ` set (snd (start (pre @ (sid, s) # post) jobs)) = fst ` set jobs \<union> fst ` set pre"
  using assms(1)
proof (induction pre arbitrary: jobs)
  case Nil
  show ?case using assms(2) by simp
next
  case (Cons a pre)
  obtain i sc where a: "a = (i, sc)" by (cases a)
  from Cons.prems a obtain ms where ms: "parseSchedule (interval sc) = Inr ms"
    by auto
  from Cons.prems have rest: "\<forall>(i, sc) \<in> set pre. \<exists>ms. parseSchedule (interval sc) = Inr ms"
    by simp
  let ?jobs = "AList.update i \<lparr>period = ms, tick_type = eventType sc, tick_scheduleId = i\<rparr> jobs"
  have step: "start ((a # pre) @ (sid, s) # post) jobs = start (pre @ (sid, s) # post) ?jobs"
    by (simp add: a ms)
  from Cons.IH [OF rest, of ?jobs] show ?case
    unfolding step by (auto simp: keys_update a)
qed

text \<open>
  C6, as stated, fails: with the schedule \<open>nightly\<close>, whose interval \<open>abc\<close> does not parse,
  loaded before the schedule \<open>hourly\<close>, whose interval does, \<open>start\<close> throws and no job is
  active afterwards: \<open>hourly\<close> is not activated. The message of the error quotes the
  interval string \<open>abc\<close>; the schedule id \<open>nightly\<close> is not in it.
\<close>

theorem start_unparseable_counterexample:
  "parseSchedule ''1h'' = Inr 3600000
   \<and> start [(''nightly'', \<lparr>interval = ''abc'', eventType = ''report.due''\<rparr>),
            (''hourly'', \<lparr>interval = ''1h'', eventType = ''sync.due''\<rparr>)] []
      = (Some (Error ''Invalid schedule format: abc''), [])"
  by (simp add: parseSchedule_eval)

text \<open>
  C6, amended. When \<open>start\<close> meets a schedule whose interval does not parse, it throws
  there: the schedules loaded before it (whose intervals parse) are active, the schedule
  itself and every schedule loaded after it are not, and the error is
  \<open>Invalid schedule format\<close> followed by the interval string of the schedule, not its id.
\<close>

theorem start_stops_at_unparseable:
  assumes "\<forall>(i, sc) \<in> set pre. \<exists>ms. parseSchedule (interval sc) = Inr ms"
    and "parseSchedule (interval s) = Inl e"
    and "distinct (map fst (pre @ (sid, s) # post))"
  shows "fst (start (pre @ (sid, s) # post) [])
           = Some (Error (''Invalid schedule format: '' @ interval s))
         \<and> fst ` set (snd (start (pre @ (sid, s) # post) [])) = fst ` set pre
         \<and> sid \<notin> fst ` set (snd (start (pre @ (sid, s) # post) []))
         \<and> (\<forall>i \<in> fst ` set post. i \<notin> fst ` set (snd (start (pre @ (sid, s) # post) [])))"
proof -
  from start_prefix [OF assms(1,2), of sid post "[]"]
  have e: "fst (start (pre @ (sid, s) # post) []) = Some e"
    and k: "fst ` set (snd (start (pre @ (sid, s) # post) [])) = fst ` set pre"
    by simp_all
  from assms(2) have "e = Error (''Invalid schedule format: '' @ interval s)"
    by (rule parseSchedule_error_message)
  with e have "fst (start (pre @ (sid, s) # post) [])
           = Some (Error (''Invalid schedule format: '' @ interval s))"
    by simp
  moreover from assms(3) have "sid \<notin> fst ` set pre" and "\<forall>i \<in> fst ` set post. i \<notin> fst ` set pre"
    by auto
  ultimately show ?thesis
    using k by simp
qed

text \<open>
  The theorem of C6 at three schedules, the second of which has the interval \<open>abc\<close>.
\<close>

theorem start_stops_at_unparseable_witness:
  "parseSchedule ''30s'' = Inr 30000
   \<and> parseSchedule ''abc'' = Inl (Error ''Invalid schedule format: abc'')
   \<and> fst (start [(''poll'', \<lparr>interval = ''30s'', eventType = ''poll.due''\<rparr>),
                 (''nightly'', \<lparr>interval = ''abc'', eventType = ''report.due''\<rparr>),
                 (''hourly'', \<lparr>interval = ''1h'', eventType = ''sync.due''\<rparr>)] [])
      = Some (Error ''Invalid schedule format: abc'')
   \<and> fst ` set (snd (start [(''poll'', \<lparr>interval = ''30s'', eventType = ''poll.due''\<rparr>),
                 (''nightly'', \<lparr>interval = ''abc'', eventType = ''report.due''\<rparr>),
                 (''hourly'', \<lparr>interval = ''1h'', eventType = ''sync.due''\<rparr>)] []))
      = {''poll''}"
proof -
  let ?pre = "[(''poll'', \<lparr>interval = ''30s'', eventType = ''poll.due''\<rparr>)]"
  let ?s = "\<lparr>interval = ''abc'', eventType = ''report.due''\<rparr>"
  let ?post = "[(''hourly'', \<lparr>interval = ''1h'', eventType = ''sync.due''\<rparr>)]"
  have p: "parseSchedule ''30s'' = Inr 30000"
    by (simp add: parseSchedule_eval)
  have q: "parseSchedule ''abc'' = Inl (Error ''Invalid schedule format: abc'')"
    by (simp add: parseSchedule_eval)
  have h1: "\<forall>(i, sc) \<in> set ?pre. \<exists>ms. parseSchedule (interval sc) = Inr ms"
    using p by simp
  have h2: "parseSchedule (interval ?s) = Inl (Error ''Invalid schedule format: abc'')"
    using q by simp
  have h3: "distinct (map fst (?pre @ (''nightly'', ?s) # ?post))"
    by simp
  from start_stops_at_unparseable [OF h1 h2 h3]
  have "fst (start (?pre @ (''nightly'', ?s) # ?post) [])
           = Some (Error ''Invalid schedule format: abc'')"
    and "fst ` set (snd (start (?pre @ (''nightly'', ?s) # ?post) [])) = {''poll''}"
    by simp_all
  with p q show ?thesis
    by simp
qed


end
